theory Spec2Isabelle
  imports Main "HOL-Library.Sublist"
begin

section \<open>Python strings\<close>

text \<open>
  Texts are modelled as \<^typ>\<open>string\<close>, a list of 8-bit characters: a Python \<open>str\<close> over
  ASCII is its own list of characters, a character beyond ASCII stands as the bytes of its
  UTF-8 encoding. \<open>str.lower\<close> is modelled on the ASCII range: it maps \<open>A\<close>..\<open>Z\<close> to
  \<open>a\<close>..\<open>z\<close> and leaves every other byte.
\<close>

definition lower_char :: "char \<Rightarrow> char" where
  "lower_char c =
     (let n = (of_char c :: nat) in if 65 \<le> n \<and> n \<le> 90 then char_of (n + 32) else c)"

definition lower :: "string \<Rightarrow> string" where
  "lower s = map lower_char s"

text \<open>\<open>w in t\<close> on two strings: \<open>w\<close> starts at some position of \<open>t\<close>.\<close>

fun str_in :: "string \<Rightarrow> string \<Rightarrow> bool" where
  "str_in w [] = (w = [])"
| "str_in w (c # cs) = (prefix w (c # cs) \<or> str_in w cs)"

text \<open>
  The characters that \<open>str.isspace\<close> holds of, each as its UTF-8 encoding: the ten of
  ASCII (9 to 13, 28 to 31 and 32) and U+0085, U+00A0, U+1680, U+2000 to U+200A, U+2028,
  U+2029, U+202F, U+205F and U+3000.
\<close>

definition whitespace :: "string list" where
  "whitespace =
     [[CHR 0x09], [CHR 0x0A], [CHR 0x0B], [CHR 0x0C], [CHR 0x0D],
      [CHR 0x1C], [CHR 0x1D], [CHR 0x1E], [CHR 0x1F], [CHR 0x20],
      [CHR 0xC2, CHR 0x85], [CHR 0xC2, CHR 0xA0],
      [CHR 0xE1, CHR 0x9A, CHR 0x80],
      [CHR 0xE2, CHR 0x80, CHR 0x80], [CHR 0xE2, CHR 0x80, CHR 0x81],
      [CHR 0xE2, CHR 0x80, CHR 0x82], [CHR 0xE2, CHR 0x80, CHR 0x83],
      [CHR 0xE2, CHR 0x80, CHR 0x84], [CHR 0xE2, CHR 0x80, CHR 0x85],
      [CHR 0xE2, CHR 0x80, CHR 0x86], [CHR 0xE2, CHR 0x80, CHR 0x87],
      [CHR 0xE2, CHR 0x80, CHR 0x88], [CHR 0xE2, CHR 0x80, CHR 0x89],
      [CHR 0xE2, CHR 0x80, CHR 0x8A],
      [CHR 0xE2, CHR 0x80, CHR 0xA8], [CHR 0xE2, CHR 0x80, CHR 0xA9],
      [CHR 0xE2, CHR 0x80, CHR 0xAF],
      [CHR 0xE2, CHR 0x81, CHR 0x9F],
      [CHR 0xE3, CHR 0x80, CHR 0x80]]"

text \<open>
  The characters of a set are taken off the front of a text for as long as one of them
  stands there. (No encoding is empty; the test keeps the recursion well-founded.)
\<close>

function lstrip_chars :: "string list \<Rightarrow> string \<Rightarrow> string" where
  "lstrip_chars ws s =
     (case find (\<lambda>w. w \<noteq> [] \<and> prefix w s) ws of
        None \<Rightarrow> s
      | Some w \<Rightarrow> lstrip_chars ws (drop (length w) s))"
  by pat_completeness auto
termination
  by (relation "measure (\<lambda>(ws, s). length s)") (auto simp: find_Some_iff prefix_def)

declare lstrip_chars.simps [simp del]

text \<open>
  \<open>s.strip()\<close>: the whitespace characters are taken off the front, then off the end (the
  reversed encodings off the front of the reversed text).
\<close>

definition strip :: "string \<Rightarrow> string" where
  "strip s = rev (lstrip_chars (map rev whitespace) (rev (lstrip_chars whitespace s)))"

text \<open>
  \<open>s.split(sep)\<close> for a separator that is not empty (Python raises \<open>ValueError\<close> on an
  empty one; the only separator of the program is a literal of seven characters). The text
  is scanned from the left: where the separator starts, the piece collected so far is
  closed and the scan goes on behind the separator.
\<close>

function split_scan :: "string \<Rightarrow> string \<Rightarrow> string \<Rightarrow> string list" where
  "split_scan sep cur [] = [cur]"
| "split_scan sep cur (c # cs) =
     (if sep \<noteq> [] \<and> prefix sep (c # cs)
      then cur # split_scan sep [] (drop (length sep) (c # cs))
      else split_scan sep (cur @ [c]) cs)"
  by pat_completeness auto
termination
  by (relation "measure (\<lambda>(sep, cur, rest). length rest)") (auto simp: neq_Nil_conv)

definition split :: "string \<Rightarrow> string \<Rightarrow> string list" where
  "split s sep = split_scan sep [] s"

section \<open>Sentiment classifier\<close>

definition positive_words :: "string list" where
  "positive_words =
     [''good'', ''great'', ''excellent'', ''amazing'', ''wonderful'', ''fantastic'',
      ''perfect'', ''outstanding'', ''brilliant'', ''superb'', ''satisfied'',
      ''happy'', ''pleased'', ''impressed'', ''helpful'', ''efficient'']"

definition negative_words :: "string list" where
  "negative_words =
     [''bad'', ''terrible'', ''awful'', ''horrible'', ''disappointing'',
      ''frustrated'', ''angry'', ''upset'', ''poor'', ''inadequate'', ''useless'',
      ''slow'', ''delayed'', ''problem'', ''issue'', ''complaint'']"

text \<open>
  The two scores are \<open>sum(1 for word in positive_words if word in text_lower)\<close> and the
  same over \<open>negative_words\<close>.
\<close>

definition positive_score :: "string \<Rightarrow> int" where
  "positive_score text_lower =
     sum_list (map (\<lambda>word. 1) (filter (\<lambda>word. str_in word text_lower) positive_words))"

definition negative_score :: "string \<Rightarrow> int" where
  "negative_score text_lower =
     sum_list (map (\<lambda>word. 1) (filter (\<lambda>word. str_in word text_lower) negative_words))"

definition analyze_sentiment :: "string \<Rightarrow> string" where
  "analyze_sentiment text =
     (let text_lower = lower text in
      if positive_score text_lower > negative_score text_lower then ''Positive''
      else if negative_score text_lower > positive_score text_lower then ''Negative''
      else ''Neutral'')"

section \<open>Process-wide model state and its collaborators\<close>

text \<open>
  The loading and generation libraries are outside the program. Each of their calls either
  returns or raises; a failure is a Python exception derived from \<open>Exception\<close>, which is
  what the handlers of the program (\<open>except Exception\<close>) catch. \<open>print\<close> is taken to
  succeed and is left out.
\<close>

datatype exn = Exception string

text \<open>A loaded object is known by the model identifier it was loaded from.\<close>

datatype tokenizer_obj = Tokenizer (tok_path: string)

datatype load_cfg = Quantized4bit | Float32 | Default

datatype model_obj = Model (model_path: string) (model_cfg: load_cfg)

text \<open>The calls made to the libraries, in the order they are made.\<close>

datatype call =
    LoadTokenizer string
  | MakeQuantConfig
  | LoadModel string load_cfg
  | ModelTo model_obj string
  | Tokenize tokenizer_obj string
  | InputsTo "nat list" "string option"
  | Generate model_obj "nat list"
  | Decode tokenizer_obj "nat list"

text \<open>
  The globals \<open>tokenizer\<close>, \<open>model\<close> and \<open>device\<close> (\<open>None\<close> at import), and the
  log of library calls, which the program does not have: it is there to state what was
  attempted.
\<close>

record globals =
  tokenizer :: "tokenizer_obj option"
  model :: "model_obj option"
  device :: "string option"
  calls :: "call list"

definition initial_globals :: globals where
  "initial_globals = \<lparr>tokenizer = None, model = None, device = None, calls = []\<rparr>"

definition primary_model_path :: string where
  "primary_model_path = ''ibm-granite/granite-3.0-3b-a800m-instruct''"

definition fallback_model_path :: string where
  "fallback_model_path = ''microsoft/DialoGPT-small''"

text \<open>
  What the loading libraries do: \<open>torch.cuda.is_available()\<close>,
  \<open>AutoTokenizer.from_pretrained(path)\<close>, \<open>BitsAndBytesConfig(...)\<close>,
  \<open>AutoModelForCausalLM.from_pretrained(path, ...)\<close> and \<open>model.to(device)\<close>. \<open>None\<close>
  is a call that returns, \<open>Some e\<close> one that raises \<open>e\<close>.
\<close>

record loaders =
  cuda_is_available :: "exn + bool"
  tokenizer_from_pretrained :: "string \<Rightarrow> exn option"
  bits_and_bytes_config :: "exn option"
  model_from_pretrained :: "string \<Rightarrow> load_cfg \<Rightarrow> exn option"
  model_to :: "model_obj \<Rightarrow> string \<Rightarrow> exn option"

definition log :: "call \<Rightarrow> globals \<Rightarrow> globals" where
  "log c g = g\<lparr>calls := calls g @ [c]\<rparr>"

section \<open>Model resolver\<close>

text \<open>
  The body of the outer \<open>try\<close> of \<open>initialize_model\<close>: \<open>Inl e\<close> when it raises \<open>e\<close>,
  \<open>Inr True\<close> when it reaches \<open>return True\<close>. Each global is assigned as soon as its
  call has returned, before the next call is made.
\<close>

definition try_primary :: "loaders \<Rightarrow> string \<Rightarrow> globals \<Rightarrow> (exn + bool) \<times> globals" where
  "try_primary L dev g =
     (let g0 = log (LoadTokenizer primary_model_path) g in
      case tokenizer_from_pretrained L primary_model_path of
        Some e \<Rightarrow> (Inl e, g0)
      | None \<Rightarrow>
          let g1 = g0\<lparr>tokenizer := Some (Tokenizer primary_model_path)\<rparr> in
          if dev = ''cuda'' then
            (let g2 = log MakeQuantConfig g1 in
             case bits_and_bytes_config L of
               Some e \<Rightarrow> (Inl e, g2)
             | None \<Rightarrow>
                 let g3 = log (LoadModel primary_model_path Quantized4bit) g2 in
                 case model_from_pretrained L primary_model_path Quantized4bit of
                   Some e \<Rightarrow> (Inl e, g3)
                 | None \<Rightarrow>
                     (Inr True, g3\<lparr>model := Some (Model primary_model_path Quantized4bit)\<rparr>))
          else
            (let g2 = log (LoadModel primary_model_path Float32) g1 in
             case model_from_pretrained L primary_model_path Float32 of
               Some e \<Rightarrow> (Inl e, g2)
             | None \<Rightarrow>
                 let m = Model primary_model_path Float32;
                     g3 = log (ModelTo m dev) (g2\<lparr>model := Some m\<rparr>) in
                 case model_to L m dev of
                   Some e \<Rightarrow> (Inl e, g3)
                 | None \<Rightarrow> (Inr True, g3)))"

text \<open>The body of the inner \<open>try\<close>, the fallback model.\<close>

definition try_fallback :: "loaders \<Rightarrow> string \<Rightarrow> globals \<Rightarrow> (exn + bool) \<times> globals" where
  "try_fallback L dev g =
     (let g0 = log (LoadTokenizer fallback_model_path) g in
      case tokenizer_from_pretrained L fallback_model_path of
        Some e2 \<Rightarrow> (Inl e2, g0)
      | None \<Rightarrow>
          let g1 = log (LoadModel fallback_model_path Default)
                     (g0\<lparr>tokenizer := Some (Tokenizer fallback_model_path)\<rparr>) in
          case model_from_pretrained L fallback_model_path Default of
            Some e2 \<Rightarrow> (Inl e2, g1)
          | None \<Rightarrow>
              let m = Model fallback_model_path Default;
                  g2 = log (ModelTo m dev) (g1\<lparr>model := Some m\<rparr>) in
              case model_to L m dev of
                Some e2 \<Rightarrow> (Inl e2, g2)
              | None \<Rightarrow> (Inr True, g2))"

text \<open>
  \<open>initialize_model()\<close>. The device query is made before the outer \<open>try\<close>, so its
  exception leaves the function; the exceptions of the two bodies are caught.
\<close>

definition initialize_model :: "loaders \<Rightarrow> globals \<Rightarrow> (exn + bool) \<times> globals" where
  "initialize_model L g =
     (case cuda_is_available L of
        Inl e \<Rightarrow> (Inl e, g)
      | Inr available \<Rightarrow>
          let dev = (if available then ''cuda'' else ''cpu'');
              g0 = g\<lparr>device := Some dev\<rparr> in
          case try_primary L dev g0 of
            (Inr b, g1) \<Rightarrow> (Inr b, g1)
          | (Inl e, g1) \<Rightarrow>
              (case try_fallback L dev g1 of
                 (Inr b, g2) \<Rightarrow> (Inr b, g2)
               | (Inl e2, g2) \<Rightarrow> (Inr False, g2)))"

text \<open>
  The start of the process (\<open>__main__\<close>): \<open>initialize_model()\<close> is called inside a
  \<open>try\<close> whose handler catches \<open>Exception\<close>, and the server is started in either case.
\<close>

definition startup :: "loaders \<Rightarrow> globals \<Rightarrow> globals" where
  "startup L g =
     (case initialize_model L g of
        (Inr model_initialized, g') \<Rightarrow> g'
      | (Inl e, g') \<Rightarrow> g')"

section \<open>Generation engine\<close>

text \<open>
  What the generation libraries do: \<open>tokenizer(prompt, ...)\<close> gives the input ids,
  \<open>inputs.to(device)\<close> moves them, \<open>model.generate(inputs.input_ids, ...)\<close> gives a batch
  of token sequences (sampled: any outcome is possible) and \<open>tokenizer.decode\<close> turns one
  sequence into text. Each may raise.
\<close>

record engine =
  tokenize :: "tokenizer_obj \<Rightarrow> string \<Rightarrow> exn + nat list"
  inputs_to :: "nat list \<Rightarrow> string option \<Rightarrow> exn + nat list"
  generate :: "model_obj \<Rightarrow> nat list \<Rightarrow> exn + nat list list"
  decode :: "tokenizer_obj \<Rightarrow> nat list \<Rightarrow> exn + string"

definition newline :: string where
  "newline = [CHR 0x0A]"

definition prompt_of :: "string \<Rightarrow> string" where
  "prompt_of question =
     ''You are a helpful AI assistant for a government citizen engagement platform. '' @ newline @
     ''        Provide clear, accurate, and helpful information about government services, policies, and civic processes.'' @ newline @
     newline @
     ''        Question: '' @ question @ newline @
     newline @
     ''        Answer:''"

definition not_ready_message :: string where
  "not_ready_message =
     ''I'' @ [CHR 0x27] @ ''m currently setting up my AI capabilities. Please try again in a moment.''"

text \<open>The apostrophe of the second message is U+2019, three bytes in UTF-8.\<close>

definition technical_difficulties_message :: string where
  "technical_difficulties_message =
     ''I'' @ [CHR 0xE2, CHR 0x80, CHR 0x99] @
     ''m having technical difficulties right now. Please try again later.''"

text \<open>
  The body of the \<open>try\<close> of \<open>generate_response\<close> up to \<open>tokenizer.decode\<close>;
  \<open>outputs[0]\<close> raises \<open>IndexError\<close> on an empty batch.
\<close>

definition run_model ::
  "engine \<Rightarrow> tokenizer_obj \<Rightarrow> model_obj \<Rightarrow> string option \<Rightarrow> string \<Rightarrow> globals
     \<Rightarrow> (exn + string) \<times> globals" where
  "run_model E t m dev question g =
     (let prompt = prompt_of question;
          g0 = log (Tokenize t prompt) g in
      case tokenize E t prompt of
        Inl e \<Rightarrow> (Inl e, g0)
      | Inr inputs \<Rightarrow>
          let g1 = log (InputsTo inputs dev) g0 in
          case inputs_to E inputs dev of
            Inl e \<Rightarrow> (Inl e, g1)
          | Inr inputs' \<Rightarrow>
              let g2 = log (Generate m inputs') g1 in
              case generate E m inputs' of
                Inl e \<Rightarrow> (Inl e, g2)
              | Inr outputs \<Rightarrow>
                  (case outputs of
                     [] \<Rightarrow> (Inl (Exception ''IndexError''), g2)
                   | out0 # _ \<Rightarrow>
                       (let g3 = log (Decode t out0) g2 in
                        case decode E t out0 of
                          Inl e \<Rightarrow> (Inl e, g3)
                        | Inr response \<Rightarrow> (Inr response, g3))))"

text \<open>Lines 100 to 103: the text behind the marker.\<close>

definition extract_answer :: "string \<Rightarrow> string" where
  "extract_answer response =
     (if str_in ''Answer:'' response then strip (last (split response ''Answer:''))
      else response)"

definition generate_response :: "engine \<Rightarrow> globals \<Rightarrow> string \<Rightarrow> (exn + string) \<times> globals" where
  "generate_response E g question =
     (if model g = None \<or> tokenizer g = None then (Inr not_ready_message, g)
      else
        case run_model E (the (tokenizer g)) (the (model g)) (device g) question g of
          (Inr response, g') \<Rightarrow> (Inr (extract_answer response), g')
        | (Inl e, g') \<Rightarrow> (Inr technical_difficulties_message, g'))"

section \<open>Notions of the specification\<close>

text \<open>
  The number of terms of a word list that occur in a text, by substring containment:
  \<^const>\<open>sublist\<close> is the library's \<open>\<exists>ps ss. t = ps @ w @ ss\<close>.
\<close>

definition keyword_count :: "string list \<Rightarrow> string \<Rightarrow> nat" where
  "keyword_count terms t = length (filter (\<lambda>w. sublist w t) terms)"

text \<open>
  A separator no occurrence of which can start inside another one: none of its proper,
  non-empty prefixes is also a suffix of it.
\<close>

definition overlap_free :: "string \<Rightarrow> bool" where
  "overlap_free sep = (\<forall>u \<in> set (prefixes sep). u = [] \<or> u = sep \<or> \<not> suffix u sep)"

text \<open>
  Acquisition of the preferred model fails when one of the calls of the outer \<open>try\<close>
  raises, acquisition of the fallback model when one of the calls of the inner one does.
\<close>

definition primary_fails :: "loaders \<Rightarrow> bool \<Rightarrow> bool" where
  "primary_fails L available =
     (tokenizer_from_pretrained L primary_model_path \<noteq> None \<or>
      (if available
       then bits_and_bytes_config L \<noteq> None \<or>
            model_from_pretrained L primary_model_path Quantized4bit \<noteq> None
       else model_from_pretrained L primary_model_path Float32 \<noteq> None \<or>
            model_to L (Model primary_model_path Float32) ''cpu'' \<noteq> None))"

definition fallback_fails :: "loaders \<Rightarrow> bool \<Rightarrow> bool" where
  "fallback_fails L available =
     (tokenizer_from_pretrained L fallback_model_path \<noteq> None \<or>
      model_from_pretrained L fallback_model_path Default \<noteq> None \<or>
      model_to L (Model fallback_model_path Default) (if available then ''cuda'' else ''cpu'')
        \<noteq> None)"

section \<open>Concrete collaborators\<close>

text \<open>
  Libraries with chosen failures: the outcome of the device query, the identifiers whose
  tokenizer does not load, the model loads that fail and the models that cannot be moved.
\<close>

definition loaders_of ::
  "(exn + bool) \<Rightarrow> string list \<Rightarrow> (string \<times> load_cfg) list \<Rightarrow> model_obj list \<Rightarrow> loaders" where
  "loaders_of probe bad_tokenizers bad_models bad_moves =
     \<lparr>cuda_is_available = probe,
      tokenizer_from_pretrained =
        (\<lambda>p. if p \<in> set bad_tokenizers then Some (Exception ''OSError'') else None),
      bits_and_bytes_config = None,
      model_from_pretrained =
        (\<lambda>p c. if (p, c) \<in> set bad_models then Some (Exception ''OSError'') else None),
      model_to = (\<lambda>m d. if m \<in> set bad_moves then Some (Exception ''RuntimeError'') else None)\<rparr>"

text \<open>
  A generation library that fails at a chosen stage (0 the tokenizer call, 1 the move of
  the inputs, 2 generation, 3 an empty batch, 4 decoding) and otherwise decodes to a
  chosen text.
\<close>

definition engine_of :: "nat \<Rightarrow> string \<Rightarrow> engine" where
  "engine_of stage decoded =
     \<lparr>tokenize = (\<lambda>t p. if stage = 0 then Inl (Exception ''tokenizer'') else Inr [1, 2]),
      inputs_to = (\<lambda>i d. if stage = 1 then Inl (Exception ''device'') else Inr i),
      generate = (\<lambda>m i. if stage = 2 then Inl (Exception ''generate'')
                         else if stage = 3 then Inr [] else Inr [i @ [3]]),
      decode = (\<lambda>t out. if stage = 4 then Inl (Exception ''decode'') else Inr decoded)\<rparr>"

definition loaded_globals :: globals where
  "loaded_globals =
     \<lparr>tokenizer = Some (Tokenizer fallback_model_path),
      model = Some (Model fallback_model_path Default),
      device = Some ''cpu'', calls = []\<rparr>"

text \<open>
  The globals after an initialization in which the preferred tokenizer loads and nothing
  else does.
\<close>

definition half_loaded :: globals where
  "half_loaded =
     snd (initialize_model
       (loaders_of (Inr False) [fallback_model_path] [(primary_model_path, Float32)] [])
       initial_globals)"

section \<open>Facts about the string operations\<close>

lemma str_in_sublist: "str_in w t = sublist w t"
  by (induction t) (auto simp: sublist_Cons_right)

lemma overlap_free_marker: "overlap_free ''Answer:''"
  by (simp add: overlap_free_def suffix_def)

lemma split_scan_nonempty: "split_scan sep cur s \<noteq> []"
  by (induction sep cur s rule: split_scan.induct) auto

lemma split_scan_no_sep:
  "\<not> sublist sep s \<Longrightarrow> split_scan sep cur s = [cur @ s]"
proof (induction s arbitrary: cur)
  case Nil
  then show ?case by simp
next
  case (Cons c cs)
  then have "\<not> prefix sep (c # cs)" and "\<not> sublist sep cs"
    by (auto simp: sublist_Cons_right)
  with Cons.IH [of "cur @ [c]"] show ?case by simp
qed

text \<open>
  Where the separator starts at the head of \<open>a @ sep @ b\<close> and \<open>a\<close> is not empty, that
  occurrence ends inside \<open>a\<close>: otherwise the rest of the separator behind \<open>a\<close> would be
  both a prefix and a suffix of it.
\<close>

lemma no_overlap:
  assumes free: "overlap_free sep"
    and pre: "prefix sep (a @ sep @ b)"
    and a: "a \<noteq> []"
  shows "length sep \<le> length a"
proof (rule ccontr)
  assume "\<not> length sep \<le> length a"
  then have short: "length a < length sep" by simp
  from pre obtain r where r: "a @ sep @ b = sep @ r"
    by (auto simp: prefix_def)
  define u where "u = drop (length a) sep"
  have a_pre: "a = take (length a) sep"
    using r short
    by (metis append_eq_conv_conj less_imp_le_nat take_append take_all_iff order_refl
        append_eq_append_conv_if)
  have sep_split: "sep = a @ u"
    unfolding u_def using a_pre by (metis append_take_drop_id)
  have "suffix u sep"
    using sep_split by (auto simp: suffix_def)
  moreover have "prefix u sep"
  proof -
    from r sep_split have "a @ sep @ b = a @ u @ r" by simp
    then have "sep @ b = u @ r" by simp
    moreover have "length u \<le> length sep" by (simp add: u_def)
    ultimately show ?thesis
      by (metis append_eq_append_conv_if prefix_def take_is_prefix)
  qed
  moreover have "u \<noteq> []" using short by (simp add: u_def)
  moreover have "u \<noteq> sep" using a sep_split by auto
  ultimately show False
    using free by (auto simp: overlap_free_def in_set_prefixes)
qed

text \<open>The last piece is the text behind the last occurrence of the separator.\<close>

lemma split_scan_last:
  assumes free: "overlap_free sep" and ne: "sep \<noteq> []" and b: "\<not> sublist sep b"
  shows "last (split_scan sep cur (a @ sep @ b)) = b"
proof (induction a arbitrary: cur rule: length_induct)
  case (1 a)
  show ?case
  proof (cases a)
    case Nil
    from ne obtain c cs where sep: "sep = c # cs" by (cases sep) auto
    have "split_scan sep cur (sep @ b) = cur # split_scan sep [] b"
      using sep by simp
    then show ?thesis
      using Nil b by (simp add: split_scan_no_sep)
  next
    case (Cons c a')
    show ?thesis
    proof (cases "prefix sep (a @ sep @ b)")
      case True
      then have len: "length sep \<le> length a"
        using no_overlap [OF free] Cons by blast
      have "drop (length sep) (a @ sep @ b) = drop (length sep) a @ sep @ b"
        using len by simp
      moreover have "length (drop (length sep) a) < length a"
        using ne Cons by simp
      ultimately have "last (split_scan sep [] (drop (length sep) (a @ sep @ b))) = b"
        using "1.IH" by simp
      moreover have "split_scan sep cur (a @ sep @ b) =
          cur # split_scan sep [] (drop (length sep) (a @ sep @ b))"
        using True ne Cons by simp
      ultimately show ?thesis
        by (simp add: split_scan_nonempty)
    next
      case False
      then have "split_scan sep cur (a @ sep @ b) = split_scan sep (cur @ [c]) (a' @ sep @ b)"
        using Cons by simp
      then show ?thesis
        using "1.IH" Cons by simp
    qed
  qed
qed

text \<open>
  \<open>strip\<close> cuts whitespace characters and nothing else from both ends, and what is left
  neither starts nor ends with a whitespace character.
\<close>

lemma lstrip_chars_decomposition:
  "\<exists>ls. set ls \<subseteq> set ws \<and> s = concat ls @ lstrip_chars ws s"
proof (induction ws s rule: lstrip_chars.induct)
  case (1 ws s)
  show ?case
  proof (cases "find (\<lambda>w. w \<noteq> [] \<and> prefix w s) ws")
    case None
    then have "lstrip_chars ws s = s"
      by (simp add: lstrip_chars.simps [of ws s])
    then have "set [] \<subseteq> set ws \<and> s = concat [] @ lstrip_chars ws s" by simp
    then show ?thesis by blast
  next
    case (Some w)
    then have w: "w \<in> set ws" and pre: "prefix w s"
      by (auto simp: find_Some_iff)
    from "1.IH" [OF Some] obtain ls where
      ls: "set ls \<subseteq> set ws" "drop (length w) s = concat ls @ lstrip_chars ws (drop (length w) s)"
      by blast
    have eq: "lstrip_chars ws s = lstrip_chars ws (drop (length w) s)"
      using Some by (simp add: lstrip_chars.simps [of ws s])
    from pre have "s = w @ drop (length w) s"
      by (auto simp: prefix_def)
    with ls(2) eq have "s = concat (w # ls) @ lstrip_chars ws s" by simp
    moreover have "set (w # ls) \<subseteq> set ws" using w ls(1) by simp
    ultimately show ?thesis by blast
  qed
qed

lemma lstrip_chars_no_prefix:
  "w \<in> set ws \<Longrightarrow> w \<noteq> [] \<Longrightarrow> \<not> prefix w (lstrip_chars ws s)"
proof (induction ws s rule: lstrip_chars.induct)
  case (1 ws s)
  show ?case
  proof (cases "find (\<lambda>w. w \<noteq> [] \<and> prefix w s) ws")
    case None
    then have "lstrip_chars ws s = s"
      by (simp add: lstrip_chars.simps [of ws s])
    moreover from None "1.prems" have "\<not> prefix w s"
      by (auto simp: find_None_iff)
    ultimately show ?thesis by simp
  next
    case (Some v)
    then have "lstrip_chars ws s = lstrip_chars ws (drop (length v) s)"
      by (simp add: lstrip_chars.simps [of ws s])
    with "1.IH" [OF Some "1.prems"] show ?thesis by simp
  qed
qed

lemma whitespace_nonempty: "[] \<notin> set whitespace"
  by (simp add: whitespace_def)

lemma strip_decomposition:
  "\<exists>ls rs. set ls \<subseteq> set whitespace \<and> set rs \<subseteq> set whitespace \<and>
     s = concat ls @ strip s @ concat rs"
proof -
  define m where "m = lstrip_chars whitespace s"
  from lstrip_chars_decomposition [of whitespace s] obtain ls where
    ls: "set ls \<subseteq> set whitespace" "s = concat ls @ m"
    unfolding m_def by blast
  from lstrip_chars_decomposition [of "map rev whitespace" "rev m"] obtain rs where
    rs: "set rs \<subseteq> set (map rev whitespace)"
      "rev m = concat rs @ lstrip_chars (map rev whitespace) (rev m)"
    by blast
  have st: "strip s = rev (lstrip_chars (map rev whitespace) (rev m))"
    by (simp add: strip_def m_def)
  from rs(2) have "rev (rev m) = rev (concat rs @ lstrip_chars (map rev whitespace) (rev m))"
    by simp
  then have "m = strip s @ concat (map rev (rev rs))"
    by (simp add: st rev_concat)
  moreover have "set (map rev (rev rs)) \<subseteq> set whitespace"
    using rs(1) by auto
  ultimately show ?thesis
    using ls by (metis append_assoc)
qed

lemma strip_ends:
  assumes "w \<in> set whitespace"
  shows "\<not> prefix w (strip s) \<and> \<not> suffix w (strip s)"
proof -
  from assms whitespace_nonempty have ne: "w \<noteq> []" by auto
  define m where "m = lstrip_chars whitespace s"
  have st: "strip s = rev (lstrip_chars (map rev whitespace) (rev m))"
    by (simp add: strip_def m_def)
  have "\<not> prefix (rev w) (lstrip_chars (map rev whitespace) (rev m))"
    using assms ne by (intro lstrip_chars_no_prefix) auto
  then have suf: "\<not> suffix w (strip s)"
    by (simp add: st suffix_to_prefix)
  from lstrip_chars_decomposition [of "map rev whitespace" "rev m"] obtain rs where
    "rev m = concat rs @ lstrip_chars (map rev whitespace) (rev m)"
    by blast
  then have "rev (rev m) = rev (concat rs @ lstrip_chars (map rev whitespace) (rev m))"
    by simp
  then have "m = strip s @ rev (concat rs)"
    by (simp add: st)
  then have "prefix (strip s) m"
    by (metis prefixI)
  moreover have "\<not> prefix w m"
    unfolding m_def using assms ne by (rule lstrip_chars_no_prefix)
  ultimately have "\<not> prefix w (strip s)"
    using prefix_order.trans by blast
  with suf show ?thesis by simp
qed

text \<open>A word without a given character lies on one side of that character.\<close>

lemma sublist_across:
  assumes "x \<notin> set w" and "w \<noteq> []"
  shows "sublist w (a @ x # b) \<longleftrightarrow> sublist w a \<or> sublist w b"
proof -
  have "\<not> prefix w (x # b)"
    using assms by (cases w) auto
  moreover have "sublist w a"
    if "w = w1 @ w2" "suffix w1 a" "prefix w2 (x # b)" for w1 w2
  proof -
    from that(1,3) assms(1) have "w2 = []" by (cases w2) auto
    with that show ?thesis by auto
  qed
  ultimately show ?thesis
    by (auto simp: sublist_append sublist_Cons_right)
qed

section \<open>The sentiment classifier\<close>

lemma score_length:
  "sum_list (map (\<lambda>word. (1::int)) (filter P ws)) = int (length (filter P ws))"
  by (induction ws) auto

lemma positive_score_count:
  "positive_score t = int (length (filter (\<lambda>w. sublist w t) positive_words))"
  by (simp add: positive_score_def score_length str_in_sublist)

lemma negative_score_count:
  "negative_score t = int (length (filter (\<lambda>w. sublist w t) negative_words))"
  by (simp add: negative_score_def score_length str_in_sublist)

lemma distinct_positive_words: "distinct positive_words"
  by (simp add: positive_words_def)

lemma distinct_negative_words: "distinct negative_words"
  by (simp add: negative_words_def)

lemma keywords_no_space:
  "\<forall>w \<in> set (positive_words @ negative_words). CHR '' '' \<notin> set w \<and> w \<noteq> []"
  by (simp add: positive_words_def negative_words_def)

lemma repeat_same_keywords:
  "\<forall>w \<in> set (positive_words @ negative_words). sublist w (t @ '' '' @ t) = sublist w t"
  using keywords_no_space by (auto simp: sublist_across simp del: set_append)

text \<open>
  C5. For every text, with the input lower-cased and the terms of the positive and of the
  negative word list counted by substring containment: a strictly greater positive count
  gives \<open>Positive\<close>, a strictly greater negative count gives \<open>Negative\<close>, equal counts
  give \<open>Neutral\<close>, and so does the empty text. The function is total: no operation of it
  can fail on a string.
\<close>

theorem analyze_sentiment_classifies:
  "(keyword_count positive_words (lower text) > keyword_count negative_words (lower text)
      \<longrightarrow> analyze_sentiment text = ''Positive'') \<and>
   (keyword_count negative_words (lower text) > keyword_count positive_words (lower text)
      \<longrightarrow> analyze_sentiment text = ''Negative'') \<and>
   (keyword_count positive_words (lower text) = keyword_count negative_words (lower text)
      \<longrightarrow> analyze_sentiment text = ''Neutral'') \<and>
   analyze_sentiment [] = ''Neutral''"
proof -
  have "analyze_sentiment [] = ''Neutral''"
    by (simp add: analyze_sentiment_def lower_def positive_score_count negative_score_count
        positive_words_def negative_words_def)
  then show ?thesis
    by (simp add: analyze_sentiment_def Let_def keyword_count_def
        positive_score_count negative_score_count)
qed

theorem analyze_sentiment_classifies_witness:
  "keyword_count positive_words (lower ''This service was GREAT and helpful'') >
     keyword_count negative_words (lower ''This service was GREAT and helpful'') \<and>
   analyze_sentiment ''This service was GREAT and helpful'' = ''Positive'' \<and>
   keyword_count negative_words (lower ''This was a terrible, awful delay'') >
     keyword_count positive_words (lower ''This was a terrible, awful delay'') \<and>
   analyze_sentiment ''This was a terrible, awful delay'' = ''Negative'' \<and>
   keyword_count positive_words (lower ''The issue was handled, good'') =
     keyword_count negative_words (lower ''The issue was handled, good'') \<and>
   analyze_sentiment ''The issue was handled, good'' = ''Neutral''"
proof -
  have p: "keyword_count positive_words (lower ''This service was GREAT and helpful'') >
     keyword_count negative_words (lower ''This service was GREAT and helpful'')"
    by code_simp
  have n: "keyword_count negative_words (lower ''This was a terrible, awful delay'') >
     keyword_count positive_words (lower ''This was a terrible, awful delay'')"
    by code_simp
  have e: "keyword_count positive_words (lower ''The issue was handled, good'') =
     keyword_count negative_words (lower ''The issue was handled, good'')"
    by code_simp
  show ?thesis
    using p n e
      analyze_sentiment_classifies [of "''This service was GREAT and helpful''"]
      analyze_sentiment_classifies [of "''This was a terrible, awful delay''"]
      analyze_sentiment_classifies [of "''The issue was handled, good''"]
    by simp
qed

text \<open>
  C10. Each score is the number of distinct keywords of its list that occur in the
  lower-cased text, so a keyword counts once however often it occurs: two texts in which
  the same keywords occur have the same scores, and a text written twice, with a space
  between the copies, has the scores of the text written once.
\<close>

theorem score_counts_distinct_keywords:
  "positive_score t = int (card {w \<in> set positive_words. sublist w t}) \<and>
   negative_score t = int (card {w \<in> set negative_words. sublist w t}) \<and>
   ((\<forall>w \<in> set (positive_words @ negative_words). sublist w t' = sublist w t) \<longrightarrow>
      positive_score t' = positive_score t \<and> negative_score t' = negative_score t) \<and>
   positive_score (t @ '' '' @ t) = positive_score t \<and>
   negative_score (t @ '' '' @ t) = negative_score t"
proof -
  have c: "length (filter P ws) = card {w \<in> set ws. P w}" if "distinct ws"
    for P and ws :: "string list"
    using that by (simp add: distinct_length_filter Collect_conj_eq Int_commute)
  have p: "positive_score u = int (card {w \<in> set positive_words. sublist w u})" for u
    by (simp add: positive_score_count c [OF distinct_positive_words])
  have n: "negative_score u = int (card {w \<in> set negative_words. sublist w u})" for u
    by (simp add: negative_score_count c [OF distinct_negative_words])
  have same: "positive_score u' = positive_score u \<and> negative_score u' = negative_score u"
    if "\<forall>w \<in> set (positive_words @ negative_words). sublist w u' = sublist w u" for u u'
  proof -
    from that have "{w \<in> set positive_words. sublist w u'} = {w \<in> set positive_words. sublist w u}"
      and "{w \<in> set negative_words. sublist w u'} = {w \<in> set negative_words. sublist w u}"
      by auto
    then show ?thesis by (simp add: p n)
  qed
  from same [OF repeat_same_keywords [of t]] same [of t' t] p [of t] n [of t]
  show ?thesis by blast
qed

theorem score_counts_distinct_keywords_witness:
  "positive_score ''good, good and good but slow'' = positive_score ''good but slow'' \<and>
   negative_score ''good, good and good but slow'' = negative_score ''good but slow'' \<and>
   positive_score ''good but slow'' = 1 \<and> negative_score ''good but slow'' = 1"
proof -
  have h: "\<forall>w \<in> set (positive_words @ negative_words).
      sublist w ''good, good and good but slow'' = sublist w ''good but slow''"
    by code_simp
  have v: "positive_score ''good but slow'' = 1 \<and> negative_score ''good but slow'' = 1"
    by code_simp
  from score_counts_distinct_keywords
    [of "''good but slow''" "''good, good and good but slow''"] h v
  show ?thesis by blast
qed

section \<open>The model resolver\<close>

lemmas resolver_defs = loaders_of_def initialize_model_def try_primary_def try_fallback_def
  log_def initial_globals_def primary_model_path_def fallback_model_path_def Let_def

lemma paths_differ: "primary_model_path \<noteq> fallback_model_path"
  by (simp add: primary_model_path_def fallback_model_path_def)

lemma try_primary_raises:
  "primary_fails L available \<Longrightarrow>
     \<exists>e. fst (try_primary L (if available then ''cuda'' else ''cpu'') g) = Inl e"
  by (cases available) (auto simp: try_primary_def primary_fails_def Let_def split: option.splits)

lemma try_primary_calls:
  "\<exists>new. calls (snd (try_primary L dev g)) = calls g @ new \<and>
     count_list new (LoadTokenizer fallback_model_path) = 0 \<and>
     count_list new (LoadModel fallback_model_path Default) = 0"
  using paths_differ
  by (auto simp: try_primary_def log_def Let_def split: option.splits)

lemma try_fallback_result:
  "fst (try_fallback L (if available then ''cuda'' else ''cpu'') g) = Inr True
     \<longleftrightarrow> \<not> fallback_fails L available"
  "fst (try_fallback L (if available then ''cuda'' else ''cpu'') g) \<noteq> Inr False"
  by (auto simp: try_fallback_def fallback_fails_def Let_def split: option.splits)

lemma try_fallback_calls:
  "\<exists>new. calls (snd (try_fallback L dev g)) = calls g @ new \<and>
     count_list new (LoadTokenizer fallback_model_path) = 1 \<and>
     count_list new (LoadModel fallback_model_path Default) \<le> 1"
  by (auto simp: try_fallback_def log_def Let_def split: option.splits)

text \<open>What \<open>return True\<close> does guarantee: a pair, loaded from one identifier.\<close>

lemma try_primary_True:
  "try_primary L dev g = (Inr b, g') \<Longrightarrow>
     b \<and> tokenizer g' = Some (Tokenizer primary_model_path) \<and>
     (\<exists>c. model g' = Some (Model primary_model_path c))"
  by (auto simp: try_primary_def log_def Let_def split: option.splits if_splits)

lemma try_fallback_True:
  "try_fallback L dev g = (Inr b, g') \<Longrightarrow>
     b \<and> tokenizer g' = Some (Tokenizer fallback_model_path) \<and>
     model g' = Some (Model fallback_model_path Default)"
  by (auto simp: try_fallback_def log_def Let_def split: option.splits)

lemma initialize_model_True:
  assumes "initialize_model L g = (Inr True, g')"
  shows "\<exists>p c. tokenizer g' = Some (Tokenizer p) \<and> model g' = Some (Model p c)"
proof -
  from assms obtain available where q: "cuda_is_available L = Inr available"
    by (cases "cuda_is_available L") (auto simp: initialize_model_def)
  define dev where "dev = (if available then ''cuda'' else ''cpu'')"
  define g0 where "g0 = g\<lparr>device := Some dev\<rparr>"
  obtain r1 g1 where t1: "try_primary L dev g0 = (r1, g1)" by (cases "try_primary L dev g0")
  obtain r2 g2 where t2: "try_fallback L dev g1 = (r2, g2)" by (cases "try_fallback L dev g1")
  show ?thesis
  proof (cases r1)
    case (Inr b)
    with assms q t1 have "g' = g1"
      by (simp add: initialize_model_def dev_def g0_def)
    with try_primary_True t1 Inr show ?thesis by blast
  next
    case (Inl e)
    with assms q t1 t2 obtain b where "r2 = Inr b" and "g' = g2"
      by (cases r2) (auto simp: initialize_model_def dev_def g0_def)
    with try_fallback_True t2 show ?thesis by blast
  qed
qed

text \<open>
  C2. When the device query returns and acquisition of the preferred model fails,
  whichever of its calls raises, \<open>initialize_model\<close> does not raise: it returns
  \<open>True\<close> when the fallback is acquired and \<open>False\<close> when the fallback fails as well, and
  among the calls it makes the fallback tokenizer is asked for exactly once and the
  fallback model at most once.
\<close>

theorem fallback_attempted_once:
  assumes q: "cuda_is_available L = Inr available"
    and p: "primary_fails L available"
  shows "fst (initialize_model L g) = Inr (\<not> fallback_fails L available) \<and>
    (\<exists>new. calls (snd (initialize_model L g)) = calls g @ new \<and>
       count_list new (LoadTokenizer fallback_model_path) = 1 \<and>
       count_list new (LoadModel fallback_model_path Default) \<le> 1)"
proof -
  define dev where "dev = (if available then ''cuda'' else ''cpu'')"
  define g0 where "g0 = g\<lparr>device := Some dev\<rparr>"
  obtain r1 g1 where t1: "try_primary L dev g0 = (r1, g1)" by (cases "try_primary L dev g0")
  obtain r2 g2 where t2: "try_fallback L dev g1 = (r2, g2)" by (cases "try_fallback L dev g1")
  from try_primary_raises [OF p, of g0] t1 obtain e where r1: "r1 = Inl e"
    by (auto simp: dev_def)
  have init: "initialize_model L g = (case r2 of Inr b \<Rightarrow> (Inr b, g2) | Inl e2 \<Rightarrow> (Inr False, g2))"
    using q t1 t2 r1 by (simp add: initialize_model_def dev_def g0_def split: sum.splits)
  have res: "fst (initialize_model L g) = Inr (\<not> fallback_fails L available)"
    using try_fallback_result [of L available g1] t2 init
    by (cases r2) (auto simp: dev_def)
  from try_primary_calls [of L dev g0] t1 obtain n1 where
    n1: "calls g1 = calls g @ n1" "count_list n1 (LoadTokenizer fallback_model_path) = 0"
      "count_list n1 (LoadModel fallback_model_path Default) = 0"
    by (auto simp: g0_def)
  from try_fallback_calls [of L dev g1] t2 obtain n2 where
    n2: "calls g2 = calls g1 @ n2" "count_list n2 (LoadTokenizer fallback_model_path) = 1"
      "count_list n2 (LoadModel fallback_model_path Default) \<le> 1"
    by auto
  have "snd (initialize_model L g) = g2"
    using init by (cases r2) auto
  then have "calls (snd (initialize_model L g)) = calls g @ (n1 @ n2) \<and>
       count_list (n1 @ n2) (LoadTokenizer fallback_model_path) = 1 \<and>
       count_list (n1 @ n2) (LoadModel fallback_model_path Default) \<le> 1"
    using n1 n2 by simp
  with res show ?thesis by blast
qed

theorem fallback_attempted_once_witness:
  "cuda_is_available (loaders_of (Inr False) [primary_model_path] [] []) = Inr False \<and>
   primary_fails (loaders_of (Inr False) [primary_model_path] [] []) False \<and>
   \<not> fallback_fails (loaders_of (Inr False) [primary_model_path] [] []) False \<and>
   fst (initialize_model (loaders_of (Inr False) [primary_model_path] [] []) initial_globals) =
     Inr True \<and>
   cuda_is_available (loaders_of (Inr True) [primary_model_path, fallback_model_path] [] []) =
     Inr True \<and>
   primary_fails (loaders_of (Inr True) [primary_model_path, fallback_model_path] [] []) True \<and>
   fallback_fails (loaders_of (Inr True) [primary_model_path, fallback_model_path] [] []) True \<and>
   fst (initialize_model (loaders_of (Inr True) [primary_model_path, fallback_model_path] [] [])
          initial_globals) = Inr False \<and>
   count_list (calls (snd (initialize_model
       (loaders_of (Inr True) [primary_model_path, fallback_model_path] [] []) initial_globals)))
     (LoadTokenizer fallback_model_path) = 1"
proof -
  let ?L1 = "loaders_of (Inr False) [primary_model_path] [] []"
  let ?L2 = "loaders_of (Inr True) [primary_model_path, fallback_model_path] [] []"
  have q1: "cuda_is_available ?L1 = Inr False" and q2: "cuda_is_available ?L2 = Inr True"
    by (simp_all add: loaders_of_def)
  have p1: "primary_fails ?L1 False" and p2: "primary_fails ?L2 True"
    by (simp_all add: loaders_of_def primary_fails_def)
  have f1: "\<not> fallback_fails ?L1 False" and f2: "fallback_fails ?L2 True"
    by (simp_all add: loaders_of_def fallback_fails_def primary_model_path_def
        fallback_model_path_def)
  from fallback_attempted_once [OF q1 p1, of initial_globals]
    fallback_attempted_once [OF q2 p2, of initial_globals]
  show ?thesis
    using q1 q2 p1 p2 f1 f2 by (auto simp: initial_globals_def)
qed

text \<open>
  C3. \<open>initialize_model\<close> is to return \<open>True\<close> exactly when a tokenizer and a model are
  set afterwards. It does not: with an accelerator present, the quantized load of the
  preferred model failing, the fallback tokenizer and model loading and \<open>model.to\<close>
  raising, it returns \<open>False\<close> and leaves both globals set to the fallback's objects.
\<close>

theorem initialize_model_false_with_pair_set:
  "initialize_model
     (loaders_of (Inr True) [] [(primary_model_path, Quantized4bit)]
        [Model fallback_model_path Default]) initial_globals =
   (Inr False,
    \<lparr>tokenizer = Some (Tokenizer fallback_model_path),
     model = Some (Model fallback_model_path Default),
     device = Some ''cuda'',
     calls = [LoadTokenizer primary_model_path, MakeQuantConfig,
              LoadModel primary_model_path Quantized4bit,
              LoadTokenizer fallback_model_path, LoadModel fallback_model_path Default,
              ModelTo (Model fallback_model_path Default) ''cuda'']\<rparr>)"
  by (simp add: resolver_defs)

text \<open>
  C4. The tokenizer and the model are to come from one identifier whenever both are set.
  They do not: without an accelerator, the preferred tokenizer and model loading,
  \<open>model.to\<close> raising on the preferred model, the fallback tokenizer loading and the
  fallback model failing to load, the globals hold the fallback's tokenizer beside the
  preferred model.
\<close>

theorem initialize_model_mixed_pair:
  "initialize_model
     (loaders_of (Inr False) [] [(fallback_model_path, Default)]
        [Model primary_model_path Float32]) initial_globals =
   (Inr False,
    \<lparr>tokenizer = Some (Tokenizer fallback_model_path),
     model = Some (Model primary_model_path Float32),
     device = Some ''cpu'',
     calls = [LoadTokenizer primary_model_path, LoadModel primary_model_path Float32,
              ModelTo (Model primary_model_path Float32) ''cpu'',
              LoadTokenizer fallback_model_path, LoadModel fallback_model_path Default]\<rparr>)"
  by (simp add: resolver_defs)

text \<open>
  C8. Device detection is to have no failure mode: a failing availability query is to be
  taken as absence of acceleration, with the CPU selected. In the program the query is
  made before the \<open>try\<close> of \<open>initialize_model\<close>: when it raises, no device is selected
  and nothing is loaded, the exception leaves \<open>initialize_model\<close> with the globals as
  they were, the handler of the start-up block catches it, and the process goes on with
  no model, \<open>generate_response\<close> giving the not-ready text.
\<close>

theorem probe_failure_reaches_startup:
  assumes "cuda_is_available L = Inl e"
  shows "initialize_model L g = (Inl e, g) \<and> startup L g = g \<and>
         fst (generate_response E (startup L initial_globals) q) = Inr not_ready_message"
  using assms
  by (simp add: initialize_model_def startup_def generate_response_def initial_globals_def)

theorem probe_failure_reaches_startup_witness:
  "cuda_is_available (loaders_of (Inl (Exception ''RuntimeError'')) [] [] []) =
     Inl (Exception ''RuntimeError'') \<and>
   initialize_model (loaders_of (Inl (Exception ''RuntimeError'')) [] [] []) initial_globals =
     (Inl (Exception ''RuntimeError''), initial_globals) \<and>
   startup (loaders_of (Inl (Exception ''RuntimeError'')) [] [] []) initial_globals =
     initial_globals \<and>
   fst (generate_response (engine_of 5 ''Hello'')
     (startup (loaders_of (Inl (Exception ''RuntimeError'')) [] [] []) initial_globals) ''hi'') =
     Inr not_ready_message"
proof -
  have h: "cuda_is_available (loaders_of (Inl (Exception ''RuntimeError'')) [] [] []) =
     Inl (Exception ''RuntimeError'')"
    by (simp add: loaders_of_def)
  show ?thesis
    using h probe_failure_reaches_startup [OF h, of initial_globals "engine_of 5 ''Hello''" "''hi''"]
    by blast
qed

text \<open>
  The claim as it is written fails where the query raises \<open>RuntimeError\<close>: the exception
  comes out of \<open>initialize_model\<close>, and no device has been selected.
\<close>

theorem probe_failure_leaves_initialize_model:
  "fst (initialize_model (loaders_of (Inl (Exception ''RuntimeError'')) [] [] []) initial_globals)
     = Inl (Exception ''RuntimeError'') \<and>
   device (snd (initialize_model (loaders_of (Inl (Exception ''RuntimeError'')) [] [] [])
     initial_globals)) = None"
  by (simp add: resolver_defs)

section \<open>The generation engine\<close>

lemmas engine_defs = generate_response_def run_model_def log_def Let_def engine_of_def
  loaded_globals_def

lemma extract_answer_marker:
  assumes "\<not> sublist ''Answer:'' b"
  shows "extract_answer (a @ ''Answer:'' @ b) = strip b"
proof -
  have "last (split_scan ''Answer:'' [] (a @ ''Answer:'' @ b)) = b"
    using assms by (intro split_scan_last overlap_free_marker) simp_all
  moreover have "str_in ''Answer:'' (a @ ''Answer:'' @ b)"
    unfolding str_in_sublist by (rule sublist_appendI)
  ultimately show ?thesis
    by (simp only: extract_answer_def split_def if_True)
qed

lemma extract_answer_no_marker:
  "\<not> sublist ''Answer:'' response \<Longrightarrow> extract_answer response = response"
  by (simp only: extract_answer_def str_in_sublist if_False)

lemma generate_response_decoded:
  assumes "tokenizer g = Some t" and "model g = Some m"
    and "tokenize E t (prompt_of q) = Inr i"
    and "inputs_to E i (device g) = Inr i'"
    and "generate E m i' = Inr (out # rest)"
    and "decode E t out = Inr decoded"
  shows "fst (generate_response E g q) = Inr (extract_answer decoded)"
  using assms by (simp add: generate_response_def run_model_def Let_def)

text \<open>
  C1. For every question, every state of the globals and every behaviour of the
  tokenizer and the model, \<open>generate_response\<close> returns a string and raises nothing;
  with a pair loaded, a failure of the tokenizer call, of the move of the inputs, of
  generation, of the indexing of an empty batch or of decoding gives the fixed
  technical-difficulties text.
\<close>

theorem generate_response_never_raises:
  "(\<exists>r. fst (generate_response E g q) = Inr r) \<and>
   (tokenizer g = Some t \<and> model g = Some m \<longrightarrow>
     (tokenize E t (prompt_of q) = Inl e \<longrightarrow>
        fst (generate_response E g q) = Inr technical_difficulties_message) \<and>
     (tokenize E t (prompt_of q) = Inr i \<and> inputs_to E i (device g) = Inl e \<longrightarrow>
        fst (generate_response E g q) = Inr technical_difficulties_message) \<and>
     (tokenize E t (prompt_of q) = Inr i \<and> inputs_to E i (device g) = Inr i' \<and>
      generate E m i' = Inl e \<longrightarrow>
        fst (generate_response E g q) = Inr technical_difficulties_message) \<and>
     (tokenize E t (prompt_of q) = Inr i \<and> inputs_to E i (device g) = Inr i' \<and>
      generate E m i' = Inr [] \<longrightarrow>
        fst (generate_response E g q) = Inr technical_difficulties_message) \<and>
     (tokenize E t (prompt_of q) = Inr i \<and> inputs_to E i (device g) = Inr i' \<and>
      generate E m i' = Inr (out # rest) \<and> decode E t out = Inl e \<longrightarrow>
        fst (generate_response E g q) = Inr technical_difficulties_message))"
proof -
  have "\<exists>r. fst (generate_response E g q) = Inr r"
    by (simp add: generate_response_def split: prod.splits sum.splits)
  moreover have "fst (generate_response E g q) = Inr technical_difficulties_message"
    if "tokenizer g = Some t" "model g = Some m"
      "fst (run_model E t m (device g) q g) = Inl e" for e
    using that by (auto simp: generate_response_def split: prod.splits sum.splits)
  ultimately show ?thesis
    by (auto simp: run_model_def Let_def)
qed

theorem generate_response_never_raises_witness:
  "fst (generate_response (engine_of 0 ''Hello'') loaded_globals ''hi'') =
     Inr technical_difficulties_message \<and>
   fst (generate_response (engine_of 1 ''Hello'') loaded_globals ''hi'') =
     Inr technical_difficulties_message \<and>
   fst (generate_response (engine_of 2 ''Hello'') loaded_globals ''hi'') =
     Inr technical_difficulties_message \<and>
   fst (generate_response (engine_of 3 ''Hello'') loaded_globals ''hi'') =
     Inr technical_difficulties_message \<and>
   fst (generate_response (engine_of 4 ''Hello'') loaded_globals ''hi'') =
     Inr technical_difficulties_message \<and>
   fst (generate_response (engine_of 5 ''Hello'') loaded_globals ''hi'') = Inr ''Hello''"
proof -
  let ?t = "Tokenizer fallback_model_path" and ?m = "Model fallback_model_path Default"
  have g: "tokenizer loaded_globals = Some ?t \<and> model loaded_globals = Some ?m"
    by (simp add: loaded_globals_def)
  have s0: "tokenize (engine_of 0 ''Hello'') ?t (prompt_of ''hi'') = Inl (Exception ''tokenizer'')"
    by (simp add: engine_of_def)
  have s1: "tokenize (engine_of 1 ''Hello'') ?t (prompt_of ''hi'') = Inr [1, 2] \<and>
      inputs_to (engine_of 1 ''Hello'') [1, 2] (device loaded_globals) = Inl (Exception ''device'')"
    by (simp add: engine_of_def)
  have s2: "tokenize (engine_of 2 ''Hello'') ?t (prompt_of ''hi'') = Inr [1, 2] \<and>
      inputs_to (engine_of 2 ''Hello'') [1, 2] (device loaded_globals) = Inr [1, 2] \<and>
      generate (engine_of 2 ''Hello'') ?m [1, 2] = Inl (Exception ''generate'')"
    by (simp add: engine_of_def)
  have s3: "tokenize (engine_of 3 ''Hello'') ?t (prompt_of ''hi'') = Inr [1, 2] \<and>
      inputs_to (engine_of 3 ''Hello'') [1, 2] (device loaded_globals) = Inr [1, 2] \<and>
      generate (engine_of 3 ''Hello'') ?m [1, 2] = Inr []"
    by (simp add: engine_of_def)
  have s4: "tokenize (engine_of 4 ''Hello'') ?t (prompt_of ''hi'') = Inr [1, 2] \<and>
      inputs_to (engine_of 4 ''Hello'') [1, 2] (device loaded_globals) = Inr [1, 2] \<and>
      generate (engine_of 4 ''Hello'') ?m [1, 2] = Inr ([1, 2, 3] # []) \<and>
      decode (engine_of 4 ''Hello'') ?t [1, 2, 3] = Inl (Exception ''decode'')"
    by (simp add: engine_of_def)
  have r0: "fst (generate_response (engine_of 0 ''Hello'') loaded_globals ''hi'') =
     Inr technical_difficulties_message"
    using generate_response_never_raises [of "engine_of 0 ''Hello''" loaded_globals "''hi''" ?t ?m
        "Exception ''tokenizer''"] g s0 by blast
  have r1: "fst (generate_response (engine_of 1 ''Hello'') loaded_globals ''hi'') =
     Inr technical_difficulties_message"
    using generate_response_never_raises [of "engine_of 1 ''Hello''" loaded_globals "''hi''" ?t ?m
        "Exception ''device''" "[1, 2]"] g s1 by blast
  have r2: "fst (generate_response (engine_of 2 ''Hello'') loaded_globals ''hi'') =
     Inr technical_difficulties_message"
    using generate_response_never_raises [of "engine_of 2 ''Hello''" loaded_globals "''hi''" ?t ?m
        "Exception ''generate''" "[1, 2]" "[1, 2]"] g s2 by blast
  have r3: "fst (generate_response (engine_of 3 ''Hello'') loaded_globals ''hi'') =
     Inr technical_difficulties_message"
    using generate_response_never_raises [of "engine_of 3 ''Hello''" loaded_globals "''hi''" ?t ?m
        _ "[1, 2]" "[1, 2]"] g s3 by blast
  have r4: "fst (generate_response (engine_of 4 ''Hello'') loaded_globals ''hi'') =
     Inr technical_difficulties_message"
    using generate_response_never_raises [of "engine_of 4 ''Hello''" loaded_globals "''hi''" ?t ?m
        "Exception ''decode''" "[1, 2]" "[1, 2]" "[1, 2, 3]" "[]"] g s4 by blast
  have r5: "fst (generate_response (engine_of 5 ''Hello'') loaded_globals ''hi'') = Inr ''Hello''"
    by (simp add: engine_defs extract_answer_def)
  from r0 r1 r2 r3 r4 r5 show ?thesis by blast
qed

text \<open>
  C6. With no model loaded, tokenizer and model both unset, \<open>generate_response\<close> returns
  the one not-ready text for every question, the empty one included, raises nothing and
  leaves the globals as they are.
\<close>

theorem not_ready_when_absent:
  assumes "tokenizer g = None" and "model g = None"
  shows "generate_response E g q = (Inr not_ready_message, g) \<and>
         fst (generate_response E g q) = fst (generate_response E g [])"
  using assms by (simp add: generate_response_def)

theorem not_ready_when_absent_witness:
  "tokenizer initial_globals = None \<and> model initial_globals = None \<and>
   generate_response (engine_of 5 ''Hello'') initial_globals ''Where do I vote?'' =
     (Inr not_ready_message, initial_globals) \<and>
   fst (generate_response (engine_of 5 ''Hello'') initial_globals ''Where do I vote?'') =
     fst (generate_response (engine_of 5 ''Hello'') initial_globals [])"
proof -
  have h: "tokenizer initial_globals = None" "model initial_globals = None"
    by (simp_all add: initial_globals_def)
  from not_ready_when_absent [OF h, of "engine_of 5 ''Hello''" "''Where do I vote?''"] h
  show ?thesis by blast
qed

text \<open>
  C9. Whenever the tokenizer or the model is unset, also when only one of them is, as
  after an initialization that failed half-way, \<open>generate_response\<close> returns the
  not-ready text and calls neither the tokenizer nor the model: the log of library calls
  is unchanged.
\<close>

theorem not_ready_when_partly_set:
  assumes "model g = None \<or> tokenizer g = None"
  shows "fst (generate_response E g q) = Inr not_ready_message \<and>
         calls (snd (generate_response E g q)) = calls g"
  using assms by (auto simp: generate_response_def)

theorem not_ready_when_partly_set_witness:
  "tokenizer half_loaded = Some (Tokenizer primary_model_path) \<and>
   model half_loaded = None \<and>
   fst (generate_response (engine_of 5 ''Hello'') half_loaded ''hi'') = Inr not_ready_message \<and>
   calls (snd (generate_response (engine_of 5 ''Hello'') half_loaded ''hi'')) = calls half_loaded"
proof -
  have t: "tokenizer half_loaded = Some (Tokenizer primary_model_path)"
    and m: "model half_loaded = None"
    by (simp_all add: half_loaded_def resolver_defs)
  from m have h: "model half_loaded = None \<or> tokenizer half_loaded = None" by simp
  from not_ready_when_partly_set [OF h, of "engine_of 5 ''Hello''" "''hi''"] t m
  show ?thesis by blast
qed

text \<open>
  C7. When the pipeline decodes to a text, \<open>generate_response\<close> returns, if the text
  contains \<open>Answer:\<close>, what follows the last occurrence of the marker, stripped of
  the whitespace around it (every character of \<open>str.isspace\<close>, the ASCII ones and those
  beyond), and otherwise the decoded text as it is.
\<close>

theorem answer_after_last_marker:
  assumes "tokenizer g = Some t" and "model g = Some m"
    and "tokenize E t (prompt_of q) = Inr i"
    and "inputs_to E i (device g) = Inr i'"
    and "generate E m i' = Inr (out # rest)"
    and "decode E t out = Inr decoded"
  shows "(decoded = a @ ''Answer:'' @ b \<and> \<not> sublist ''Answer:'' b \<longrightarrow>
           fst (generate_response E g q) = Inr (strip b)) \<and>
         (\<not> sublist ''Answer:'' decoded \<longrightarrow>
           fst (generate_response E g q) = Inr decoded)"
  using generate_response_decoded [OF assms] extract_answer_marker extract_answer_no_marker
  by auto

theorem answer_after_last_marker_witness:
  "fst (generate_response
          (engine_of 5 ''Question: hi Answer: maybe Answer:  Visit the office. '')
          loaded_globals ''hi'') = Inr ''Visit the office.'' \<and>
   fst (generate_response
          (engine_of 5 (''Answer:'' @ [CHR 0xC2, CHR 0xA0] @ ''Visit the office.'' @
             [CHR 0xE2, CHR 0x80, CHR 0x83, CHR 0x0A]))
          loaded_globals ''hi'') = Inr ''Visit the office.'' \<and>
   \<not> sublist ''Answer:'' ''Hello there'' \<and>
   fst (generate_response (engine_of 5 ''Hello there'') loaded_globals ''hi'') =
     Inr ''Hello there''"
proof -
  let ?t = "Tokenizer fallback_model_path" and ?m = "Model fallback_model_path Default"
  let ?d = "''Question: hi Answer: maybe Answer:  Visit the office. ''"
  let ?b = "[CHR 0xC2, CHR 0xA0] @ ''Visit the office.'' @ [CHR 0xE2, CHR 0x80, CHR 0x83, CHR 0x0A]"
  have g: "tokenizer loaded_globals = Some ?t" "model loaded_globals = Some ?m"
    by (simp_all add: loaded_globals_def)
  have e: "tokenize (engine_of 5 d) ?t (prompt_of ''hi'') = Inr [1, 2]"
      "inputs_to (engine_of 5 d) [1, 2] (device loaded_globals) = Inr [1, 2]"
      "generate (engine_of 5 d) ?m [1, 2] = Inr ([1, 2, 3] # [])"
      "decode (engine_of 5 d) ?t [1, 2, 3] = Inr d" for d
    by (simp_all add: engine_of_def)
  have split: "?d = ''Question: hi Answer: maybe '' @ ''Answer:'' @ ''  Visit the office. ''"
    by simp
  have no: "\<not> sublist ''Answer:'' ''  Visit the office. ''"
    by code_simp
  have st: "strip ''  Visit the office. '' = ''Visit the office.''"
    by (simp add: strip_def whitespace_def lstrip_chars.simps)
  have no_b: "\<not> sublist ''Answer:'' ?b"
    by code_simp
  have st_b: "strip ?b = ''Visit the office.''"
    by (simp add: strip_def whitespace_def lstrip_chars.simps)
  have no2: "\<not> sublist ''Answer:'' ''Hello there''"
    by code_simp
  have "?d = ''Question: hi Answer: maybe '' @ ''Answer:'' @ ''  Visit the office. '' \<and>
      \<not> sublist ''Answer:'' ''  Visit the office. '' \<longrightarrow>
      fst (generate_response (engine_of 5 ?d) loaded_globals ''hi'') =
        Inr (strip ''  Visit the office. '')"
    using answer_after_last_marker [OF g e, of ?d "''Question: hi Answer: maybe ''"
      "''  Visit the office. ''"] by blast
  with split no have "fst (generate_response (engine_of 5 ?d) loaded_globals ''hi'') =
        Inr (strip ''  Visit the office. '')"
    by blast
  then have r1: "fst (generate_response (engine_of 5 ?d) loaded_globals ''hi'') =
      Inr ''Visit the office.''"
    by (simp only: st)
  have "''Answer:'' @ ?b = [] @ ''Answer:'' @ ?b \<and> \<not> sublist ''Answer:'' ?b \<longrightarrow>
      fst (generate_response (engine_of 5 (''Answer:'' @ ?b)) loaded_globals ''hi'') =
        Inr (strip ?b)"
    using answer_after_last_marker [OF g e, of "''Answer:'' @ ?b" "[]" ?b] by blast
  with no_b have "fst (generate_response (engine_of 5 (''Answer:'' @ ?b)) loaded_globals ''hi'') =
        Inr (strip ?b)"
    by (simp only: append_Nil simp_thms)
  then have r3: "fst (generate_response (engine_of 5 (''Answer:'' @ ?b)) loaded_globals ''hi'') =
      Inr ''Visit the office.''"
    by (simp only: st_b)
  from answer_after_last_marker [OF g e, of "''Hello there''"] no2
  have r2: "fst (generate_response (engine_of 5 ''Hello there'') loaded_globals ''hi'') =
      Inr ''Hello there''"
    by blast
  from r1 r3 no2 r2 show ?thesis by blast
qed

end
